theory Spec2Isabelle
  imports Main "HOL-Library.AList" "HOL-Library.Monad_Syntax"
begin

section \<open>JavaScript values and the object store\<close>

text \<open>
  Table.js works on plain JavaScript objects and arrays that are shared between the old
  and the new state of a collection, and it updates them either in place or by copying.
  The model therefore keeps an explicit store: a list of cells, an address being an index
  into it, and every function that reads or writes objects takes the store and returns
  the new one.

  A cell is an object (its own enumerable properties in insertion order, keys being
  strings) or an array. Both carry the ownership tag that immutable-ops attaches to the
  objects it creates inside a batch (\<open>None\<close>: untagged).

  A number is an integer-valued double (\<open>VNum\<close>) or \<open>NaN\<close> (\<open>VNaN\<close>); fractions
  and the infinities are not values of the model, and the two zeros are one. Arithmetic
  rounds its result to the nearest double. A function returns \<open>None\<close> where the
  JavaScript raises (a property read on \<open>undefined\<close> or \<open>null\<close>, a method call
  on a value that has no such method), and also where the model does not follow the
  JavaScript further: a named property of an array or of a string, a property found on
  \<open>Object.prototype\<close> only (its value is a function or an object of the runtime), a
  property key made of an object or of a number beyond \<open>2 ^ 53\<close>, a string that
  \<open>Number\<close> reads as a fraction or an infinity.
\<close>

type_synonym addr = nat

datatype val = VUndef | VNull | VBool bool | VNum int | VNaN | VStr string | VRef addr

datatype cell =
    CObj (props: "(string \<times> val) list") (owner: "nat option")
  | CArr (elems: "val list") (owner: "nat option")

type_synonym heap = "cell list"

subsection \<open>Numbers\<close>

text \<open>
  \<open>toDouble n\<close> is the double nearest to the integer \<open>n\<close>, a tie going to the even
  mantissa of 53 bits: every integer up to \<open>2 ^ 53\<close> in absolute value is a double,
  \<open>2 ^ 53 + 1\<close> is not. \<open>strictEq\<close> is \<open>===\<close>: \<open>NaN\<close> equals nothing, and two
  references are equal when they are the same address.
\<close>

fun bitlen :: "nat \<Rightarrow> nat" where
  "bitlen n = (if n = 0 then 0 else Suc (bitlen (n div 2)))"

declare bitlen.simps [simp del]

definition roundNat :: "nat \<Rightarrow> nat" where
  "roundNat m =
     (if bitlen m \<le> 53 then m
      else (let u = 2 ^ (bitlen m - 53); q = m div u; r = m mod u
            in (if 2 * r < u \<or> (2 * r = u \<and> even q) then q else q + 1) * u))"

definition toDouble :: "int \<Rightarrow> int" where
  "toDouble n = (if n < 0 then - int (roundNat (nat (- n))) else int (roundNat (nat n)))"

definition strictEq :: "val \<Rightarrow> val \<Rightarrow> bool" where
  "strictEq a b = (a = b \<and> a \<noteq> VNaN)"

text \<open>
  \<open>Number(value)\<close>, as \<open>Math.max\<close> applies it to its arguments. Of the strings the
  model follows those that are blank (zero), those made of decimal digits only, and those
  that no numeric literal can start with (\<open>NaN\<close>).
\<close>

definition isDigit :: "char \<Rightarrow> bool" where
  "isDigit c = (c \<in> set ''0123456789'')"

definition digitVal :: "char \<Rightarrow> nat" where
  "digitVal c = of_char c - 48"

definition decimalVal :: "string \<Rightarrow> nat" where
  "decimalVal s = foldl (\<lambda>n c. 10 * n + digitVal c) 0 s"

definition isSpace :: "char \<Rightarrow> bool" where
  "isSpace c = (of_char c \<in> set [9, 10, 11, 12, 13, 32, 160 :: nat])"

definition stringToNumber :: "string \<Rightarrow> val option" where
  "stringToNumber s =
     (case dropWhile isSpace s of
        [] \<Rightarrow> Some (VNum 0)
      | c # r \<Rightarrow>
          if isDigit c \<or> c \<in> set ''+-.I'' then
            (if list_all isDigit (c # r) \<and> toDouble (int (decimalVal (c # r))) < 2 ^ 1024
             then Some (VNum (toDouble (int (decimalVal (c # r))))) else None)
          else Some VNaN)"

definition toNumber :: "val \<Rightarrow> val option" where
  "toNumber v =
     (case v of
        VUndef \<Rightarrow> Some VNaN
      | VNull \<Rightarrow> Some (VNum 0)
      | VBool b \<Rightarrow> Some (VNum (if b then 1 else 0))
      | VNum n \<Rightarrow> Some (VNum n)
      | VNaN \<Rightarrow> Some VNaN
      | VStr s \<Rightarrow> stringToNumber s
      | VRef a \<Rightarrow> None)"

definition mathMax :: "val \<Rightarrow> val \<Rightarrow> val option" where
  "mathMax a b = do {
     x \<leftarrow> toNumber a;
     y \<leftarrow> toNumber b;
     Some (case (x, y) of (VNum m, VNum n) \<Rightarrow> VNum (max m n) | _ \<Rightarrow> VNaN) }"

text \<open>
  \<open>currMax + 1\<close>: an addition of numbers unless \<open>currMax\<close> is a string or an
  object, where \<open>+\<close> concatenates; Table never stores such a maximum and the model
  does not follow it.
\<close>

definition plusOne :: "val \<Rightarrow> val option" where
  "plusOne v =
     (case v of
        VUndef \<Rightarrow> Some VNaN
      | VNull \<Rightarrow> Some (VNum 1)
      | VBool b \<Rightarrow> Some (VNum (if b then 2 else 1))
      | VNum m \<Rightarrow> Some (VNum (toDouble (m + 1)))
      | VNaN \<Rightarrow> Some VNaN
      | VStr s \<Rightarrow> None
      | VRef a \<Rightarrow> None)"

subsection \<open>Property keys\<close>

text \<open>
  A property key is the string that JavaScript makes of the value used as the key
  (\<open>String(value)\<close>): \<open>fieldIndex[value]\<close>, \<open>map[id]\<close>. The string of an object or
  an array depends on its contents and on its methods, and that of a number beyond
  \<open>2 ^ 53\<close> is not its decimal expansion: the model follows neither.
\<close>

fun digits :: "nat \<Rightarrow> string" where
  "digits n = (if n < 10 then [''0123456789'' ! n] else digits (n div 10) @ [''0123456789'' ! (n mod 10)])"

declare digits.simps [simp del]

definition to_key :: "val \<Rightarrow> string option" where
  "to_key v =
     (case v of
        VUndef \<Rightarrow> Some ''undefined''
      | VNull \<Rightarrow> Some ''null''
      | VBool b \<Rightarrow> Some (if b then ''true'' else ''false'')
      | VNum n \<Rightarrow>
          if \<bar>n\<bar> \<le> 2 ^ 53
          then Some (if n < 0 then CHR ''-'' # digits (nat (- n)) else digits (nat n))
          else None
      | VNaN \<Rightarrow> Some ''NaN''
      | VStr s \<Rightarrow> Some s
      | VRef a \<Rightarrow> None)"

subsection \<open>Property access\<close>

definition truthy :: "val \<Rightarrow> bool" where
  "truthy v =
     (case v of
        VUndef \<Rightarrow> False
      | VNull \<Rightarrow> False
      | VBool b \<Rightarrow> b
      | VNum n \<Rightarrow> n \<noteq> 0
      | VNaN \<Rightarrow> False
      | VStr s \<Rightarrow> s \<noteq> []
      | VRef a \<Rightarrow> True)"


definition cell_at :: "heap \<Rightarrow> val \<Rightarrow> cell option" where
  "cell_at h v = (case v of VRef a \<Rightarrow> (if a < length h then Some (h ! a) else None) | _ \<Rightarrow> None)"

definition obj_at :: "heap \<Rightarrow> val \<Rightarrow> (string \<times> val) list option" where
  "obj_at h v = (case cell_at h v of Some (CObj ps ow) \<Rightarrow> Some ps | _ \<Rightarrow> None)"

definition arr_at :: "heap \<Rightarrow> val \<Rightarrow> val list option" where
  "arr_at h v = (case cell_at h v of Some (CArr xs ow) \<Rightarrow> Some xs | _ \<Rightarrow> None)"

text \<open>
  A property that an object does not own is looked up on \<open>Object.prototype\<close>, and that
  of a number or a boolean on the prototype of its wrapper: \<open>undefined\<close> unless the
  prototype has the name.
\<close>

definition protoNames :: "string list" where
  "protoNames =
     [''constructor'', ''hasOwnProperty'', ''isPrototypeOf'', ''propertyIsEnumerable'',
      ''toLocaleString'', ''toString'', ''valueOf'', ''__proto__'',
      ''__defineGetter__'', ''__defineSetter__'', ''__lookupGetter__'', ''__lookupSetter__'']"

definition inherited_get :: "string \<Rightarrow> val option" where
  "inherited_get k = (if k \<in> set protoNames then None else Some VUndef)"

definition js_get :: "heap \<Rightarrow> val \<Rightarrow> string \<Rightarrow> val option" where
  "js_get h v k =
     (case v of
        VUndef \<Rightarrow> None
      | VNull \<Rightarrow> None
      | VBool b \<Rightarrow> inherited_get k
      | VNum n \<Rightarrow>
          if k \<in> set [''toExponential'', ''toFixed'', ''toPrecision''] then None
          else inherited_get k
      | VNaN \<Rightarrow>
          if k \<in> set [''toExponential'', ''toFixed'', ''toPrecision''] then None
          else inherited_get k
      | VStr s \<Rightarrow> None
      | VRef a \<Rightarrow>
          (case obj_at h v of
             None \<Rightarrow> None
           | Some ps \<Rightarrow> (case map_of ps k of Some x \<Rightarrow> Some x | None \<Rightarrow> inherited_get k)))"

text \<open>
  \<open>object.hasOwnProperty(key)\<close> is a method call: on an object that owns a property
  named \<open>hasOwnProperty\<close> it calls that value, which raises unless it is a function.
\<close>

definition hasOwnProperty :: "heap \<Rightarrow> val \<Rightarrow> string \<Rightarrow> bool option" where
  "hasOwnProperty h v k =
     (case obj_at h v of
        None \<Rightarrow> None
      | Some ps \<Rightarrow>
          if map_of ps ''hasOwnProperty'' \<noteq> None then None else Some (map_of ps k \<noteq> None))"

definition alloc :: "cell \<Rightarrow> heap \<Rightarrow> val \<times> heap" where
  "alloc c h = (VRef (length h), h @ [c])"

text \<open>
  An object literal with computed keys \<open>{[k1]: v1, [k2]: v2}\<close>: the keys are set one
  after the other, so that an equal second key overwrites the first.
\<close>

definition objectLiteral :: "('k \<times> 'v) list \<Rightarrow> ('k \<times> 'v) list" where
  "objectLiteral kvs = foldl (\<lambda>ob (k, v). AList.update k v ob) [] kvs"

text \<open>A loop whose body may raise: \<open>forEach\<close> and \<open>reduce\<close> over a list.\<close>

fun foldM :: "('a \<Rightarrow> 's \<Rightarrow> 's option) \<Rightarrow> 'a list \<Rightarrow> 's \<Rightarrow> 's option" where
  "foldM f [] s = Some s"
| "foldM f (x # xs) s = (case f x s of None \<Rightarrow> None | Some s' \<Rightarrow> foldM f xs s')"

section \<open>The immutable-ops library\<close>

text \<open>
  Table.js calls two families of functions of the library immutable-ops (an external
  package). \<open>ops.mutable.f\<close> changes its last argument in place and returns it.
  \<open>ops.batch.f batchToken\<close> changes its last argument in place when that object
  carries the ownership tag of the batch (\<open>canMutate\<close>); otherwise it leaves the
  object alone and returns a copy with the change, tagged as owned by the batch
  (and the object itself when nothing would change).
\<close>

definition canMutate :: "heap \<Rightarrow> nat option \<Rightarrow> val \<Rightarrow> bool" where
  "canMutate h ownerID v =
     (case cell_at h v of
        Some c \<Rightarrow> ownerID \<noteq> None \<and> owner c = ownerID
      | None \<Rightarrow> False)"

definition upd_arr :: "(val list \<Rightarrow> val list) \<Rightarrow> val \<Rightarrow> heap \<Rightarrow> (val \<times> heap) option" where
  "upd_arr f v h =
     (case v of
        VRef a \<Rightarrow>
          (case cell_at h v of
             Some (CArr xs ow) \<Rightarrow> Some (v, h[a := CArr (f xs) ow])
           | _ \<Rightarrow> None)
      | _ \<Rightarrow> None)"

definition upd_obj :: "((string \<times> val) list \<Rightarrow> (string \<times> val) list) \<Rightarrow> val \<Rightarrow> heap \<Rightarrow> (val \<times> heap) option" where
  "upd_obj f v h =
     (case v of
        VRef a \<Rightarrow>
          (case cell_at h v of
             Some (CObj ps ow) \<Rightarrow> Some (v, h[a := CObj (f ps) ow])
           | _ \<Rightarrow> None)
      | _ \<Rightarrow> None)"

definition mutable_push :: "val \<Rightarrow> val \<Rightarrow> heap \<Rightarrow> (val \<times> heap) option" where
  "mutable_push x arr h = upd_arr (\<lambda>xs. xs @ [x]) arr h"

definition batch_push :: "nat option \<Rightarrow> val \<Rightarrow> val \<Rightarrow> heap \<Rightarrow> (val \<times> heap) option" where
  "batch_push ownerID x arr h =
     (if canMutate h ownerID arr then mutable_push x arr h
      else map_option (\<lambda>xs. alloc (CArr (xs @ [x]) ownerID) h) (arr_at h arr))"

definition mutable_filter :: "(val \<Rightarrow> bool) \<Rightarrow> val \<Rightarrow> heap \<Rightarrow> (val \<times> heap) option" where
  "mutable_filter func arr h = upd_arr (filter func) arr h"

definition batch_filter :: "nat option \<Rightarrow> (val \<Rightarrow> bool) \<Rightarrow> val \<Rightarrow> heap \<Rightarrow> (val \<times> heap) option" where
  "batch_filter ownerID func arr h =
     (if canMutate h ownerID arr then mutable_filter func arr h
      else map_option
             (\<lambda>xs. if length (filter func xs) = length xs then (arr, h)
                    else alloc (CArr (filter func xs) ownerID) h)
             (arr_at h arr))"

definition mutable_splice :: "nat \<Rightarrow> nat \<Rightarrow> val \<Rightarrow> heap \<Rightarrow> (val \<times> heap) option" where
  "mutable_splice idx deleteCount arr h =
     upd_arr (\<lambda>xs. take idx xs @ drop (idx + deleteCount) xs) arr h"

text \<open>
  An assignment \<open>obj[key] = value\<close> makes or changes an own property, except for the key
  \<open>__proto__\<close>, which the model does not follow. \<open>sameProp\<close> is the test
  \<open>obj[key] === value\<close>, \<open>obj[key]\<close> being looked up on the prototype when the
  object does not own the key.
\<close>

definition mutable_set :: "string \<Rightarrow> val \<Rightarrow> val \<Rightarrow> heap \<Rightarrow> (val \<times> heap) option" where
  "mutable_set key x ob h =
     (if key = ''__proto__'' then None else upd_obj (AList.update key x) ob h)"

definition sameProp :: "(string \<times> val) list \<Rightarrow> string \<Rightarrow> val \<Rightarrow> bool" where
  "sameProp ps key x =
     (case map_of ps key of
        Some y \<Rightarrow> strictEq y x
      | None \<Rightarrow> key \<notin> set protoNames \<and> x = VUndef)"

definition batch_set :: "nat option \<Rightarrow> string \<Rightarrow> val \<Rightarrow> val \<Rightarrow> heap \<Rightarrow> (val \<times> heap) option" where
  "batch_set ownerID key x ob h =
     (if key = ''__proto__'' then None
      else if canMutate h ownerID ob then mutable_set key x ob h
      else map_option
             (\<lambda>ps. if sameProp ps key x then (ob, h)
                    else alloc (CObj (AList.update key x ps) ownerID) h)
             (obj_at h ob))"

definition omit_keys :: "string list \<Rightarrow> (string \<times> val) list \<Rightarrow> (string \<times> val) list" where
  "omit_keys keys ps = foldl (\<lambda>ps' k. AList.delete k ps') ps keys"

definition mutable_omit :: "string list \<Rightarrow> val \<Rightarrow> heap \<Rightarrow> (val \<times> heap) option" where
  "mutable_omit keys ob h = upd_obj (omit_keys keys) ob h"

definition batch_omit :: "nat option \<Rightarrow> string list \<Rightarrow> val \<Rightarrow> heap \<Rightarrow> (val \<times> heap) option" where
  "batch_omit ownerID keys ob h =
     (if canMutate h ownerID ob then mutable_omit keys ob h
      else map_option
             (\<lambda>ps. if filter (\<lambda>k. map_of ps k \<noteq> None) keys = [] then (ob, h)
                    else alloc (CObj (omit_keys keys ps) ownerID) h)
             (obj_at h ob))"

definition merge_props :: "(string \<times> val) list \<Rightarrow> (string \<times> val) list \<Rightarrow> (string \<times> val) list" where
  "merge_props src ps = foldl (\<lambda>ps' (k, x). AList.update k x ps') ps src"

definition mutable_merge :: "(string \<times> val) list \<Rightarrow> val \<Rightarrow> heap \<Rightarrow> (val \<times> heap) option" where
  "mutable_merge src ob h =
     (if ''__proto__'' \<in> fst ` set src then None else upd_obj (merge_props src) ob h)"

definition merge_changes :: "(string \<times> val) list \<Rightarrow> (string \<times> val) list \<Rightarrow> (string \<times> val) list \<times> bool" where
  "merge_changes src ps =
     foldl (\<lambda>(ps', hasChanges) (k, x).
              if \<not> sameProp ps' k x then (AList.update k x ps', True) else (ps', hasChanges))
           (ps, False) src"

definition batch_merge :: "nat option \<Rightarrow> (string \<times> val) list \<Rightarrow> val \<Rightarrow> heap \<Rightarrow> (val \<times> heap) option" where
  "batch_merge ownerID src ob h =
     (if ''__proto__'' \<in> fst ` set src then None
      else if canMutate h ownerID ob then mutable_merge src ob h
      else map_option
             (\<lambda>ps. case merge_changes src ps of
                      (ps', hasChanges) \<Rightarrow>
                        if hasChanges then alloc (CObj ps' ownerID) h else (ob, h))
             (obj_at h ob))"

fun mutable_setIn_from :: "string list \<Rightarrow> val \<Rightarrow> val \<Rightarrow> heap \<Rightarrow> heap option" where
  "mutable_setIn_from [] x acc h = Some h"
| "mutable_setIn_from [k] x acc h = map_option snd (mutable_set k x acc h)"
| "mutable_setIn_from (k # rest) x acc h =
     (case js_get h acc k of
        Some VUndef \<Rightarrow>
          (case alloc (CObj [] None) h of
             (newObj, h1) \<Rightarrow>
               (case mutable_set k newObj acc h1 of
                  Some (_, h2) \<Rightarrow> mutable_setIn_from rest x newObj h2
                | None \<Rightarrow> None))
      | Some (VRef a) \<Rightarrow> mutable_setIn_from rest x (VRef a) h
      | _ \<Rightarrow> None)"

definition mutable_setIn :: "string list \<Rightarrow> val \<Rightarrow> val \<Rightarrow> heap \<Rightarrow> (val \<times> heap) option" where
  "mutable_setIn path x ob h = map_option (\<lambda>h'. (ob, h')) (mutable_setIn_from path x ob h)"

fun valueInPath :: "heap \<Rightarrow> string list \<Rightarrow> val \<Rightarrow> val option" where
  "valueInPath h [] acc = Some VUndef"
| "valueInPath h [k] acc = js_get h acc k"
| "valueInPath h (k # rest) acc =
     (case js_get h acc k of
        Some (VRef a) \<Rightarrow> valueInPath h rest (VRef a)
      | Some VNull \<Rightarrow> None
      | Some _ \<Rightarrow> Some VUndef
      | None \<Rightarrow> None)"

fun batch_setIn_from :: "nat option \<Rightarrow> string list \<Rightarrow> val \<Rightarrow> val \<Rightarrow> heap \<Rightarrow> heap option" where
  "batch_setIn_from ownerID [] x acc h = Some h"
| "batch_setIn_from ownerID [k] x acc h = map_option snd (mutable_set k x acc h)"
| "batch_setIn_from ownerID (k # rest) x acc h =
     (case js_get h acc k of
        Some VUndef \<Rightarrow>
          (case alloc (CObj [] ownerID) h of
             (newObj, h1) \<Rightarrow>
               (case mutable_set k newObj acc h1 of
                  Some (_, h2) \<Rightarrow> batch_setIn_from ownerID rest x newObj h2
                | None \<Rightarrow> None))
      | Some (VRef a) \<Rightarrow>
          (if canMutate h ownerID (VRef a) then batch_setIn_from ownerID rest x (VRef a) h
           else (case obj_at h (VRef a) of
                   Some ps \<Rightarrow>
                     (case alloc (CObj ps ownerID) h of
                        (newObj, h1) \<Rightarrow>
                          (case mutable_set k newObj acc h1 of
                             Some (_, h2) \<Rightarrow> batch_setIn_from ownerID rest x newObj h2
                           | None \<Rightarrow> None))
                 | None \<Rightarrow> None))
      | _ \<Rightarrow> None)"

definition batch_setIn :: "nat option \<Rightarrow> string list \<Rightarrow> val \<Rightarrow> val \<Rightarrow> heap \<Rightarrow> (val \<times> heap) option" where
  "batch_setIn ownerID path x ob h =
     (case valueInPath h path ob of
        None \<Rightarrow> None
      | Some currentValue \<Rightarrow>
          if strictEq x currentValue then Some (ob, h)
          else if canMutate h ownerID ob
            then map_option (\<lambda>h'. (ob, h')) (batch_setIn_from ownerID path x ob h)
            else (case obj_at h ob of
                    Some ps \<Rightarrow>
                      (case alloc (CObj ps ownerID) h of
                         (rootObj, h1) \<Rightarrow>
                           map_option (\<lambda>h'. (rootObj, h')) (batch_setIn_from ownerID path x rootObj h1))
                  | None \<Rightarrow> None))"

section \<open>Table (src/db/Table.js)\<close>

text \<open>
  \<open>idSequencer\<close> returns the new maximum and the identity to use. A supplied identity
  is used as it is, whatever its type; \<open>Math.max\<close> reads it as a number, so that a
  string that is not numeric leaves \<open>NaN\<close> as the maximum.
\<close>

definition idSequencer :: "val \<Rightarrow> val \<Rightarrow> (val \<times> val) option" where
  "idSequencer currMax0 userPassedId = do {
     next \<leftarrow> plusOne (if currMax0 = VUndef then VNum (- 1) else currMax0);
     if userPassedId = VUndef then Some (next, next)
     else do {
       newMax \<leftarrow> mathMax next userPassedId;
       Some (newMax, userPassedId) } }"

text \<open>
  The options of a Table instance. \<open>tableFields\<close> is \<open>this.fields\<close>: each
  field with its \<open>opts\<close> (\<open>None\<close> when the field has none), of which Table reads
  \<open>index\<close> and \<open>isUnique\<close>.
\<close>

record field_opts =
  index :: bool
  isUnique :: bool

record table =
  idAttribute :: string
  arrName :: string
  mapName :: string
  useIndex :: bool
  tableFields :: "(string \<times> field_opts option) list"

record tx =
  batchToken :: "nat option"
  withMutations :: bool

definition accessId :: "table \<Rightarrow> heap \<Rightarrow> val \<Rightarrow> val \<Rightarrow> val option" where
  "accessId t h branch ident = do {
     m \<leftarrow> js_get h branch (mapName t);
     k \<leftarrow> to_key ident;
     js_get h m k }"


definition accessIdList :: "table \<Rightarrow> heap \<Rightarrow> val \<Rightarrow> val list option" where
  "accessIdList t h branch = do {
     a \<leftarrow> js_get h branch (arrName t);
     arr_at h a }"


definition getMeta :: "heap \<Rightarrow> val \<Rightarrow> string \<Rightarrow> val option" where
  "getMeta h branch key = do {
     m \<leftarrow> js_get h branch ''meta'';
     js_get h m key }"

definition getMaxId :: "heap \<Rightarrow> val \<Rightarrow> val option" where
  "getMaxId h branch = getMeta h branch ''maxId''"

definition setMeta :: "tx \<Rightarrow> val \<Rightarrow> string \<Rightarrow> val \<Rightarrow> heap \<Rightarrow> (val \<times> heap) option" where
  "setMeta t branch key x h =
     (if withMutations t then mutable_setIn [''meta'', key] x branch h
      else batch_setIn (batchToken t) [''meta'', key] x branch h)"

definition setMaxId :: "tx \<Rightarrow> val \<Rightarrow> val \<Rightarrow> heap \<Rightarrow> (val \<times> heap) option" where
  "setMaxId t branch newMaxId h = setMeta t branch ''maxId'' newMaxId h"

text \<open>
  \<open>fieldIndex[value]\<close> where \<open>fieldIndex\<close> is \<open>branch.__indexes[fieldName] || {}\<close>:
  a read of the field's index when the branch has one, and of a new empty object
  otherwise.
\<close>

definition fieldIndexGet :: "heap \<Rightarrow> val \<Rightarrow> val \<Rightarrow> val option" where
  "fieldIndexGet h fi x = do {
     k \<leftarrow> to_key x;
     if truthy fi then js_get h fi k else inherited_get k }"

definition getIdListByIndex :: "heap \<Rightarrow> val \<Rightarrow> string \<Rightarrow> val \<Rightarrow> val list option" where
  "getIdListByIndex h branch fieldName x = do {
     indexes \<leftarrow> js_get h branch ''__indexes'';
     fi \<leftarrow> js_get h indexes fieldName;
     bucket \<leftarrow> fieldIndexGet h fi x;
     if truthy bucket then arr_at h bucket else Some [] }"

definition getEmptyState :: "table \<Rightarrow> heap \<Rightarrow> val \<times> heap" where
  "getEmptyState t h =
     (case alloc (CArr [] None) h of (arr, h1) \<Rightarrow>
      case alloc (CObj [] None) h1 of (mp, h2) \<Rightarrow>
      case alloc (CObj [] None) h2 of (meta, h3) \<Rightarrow>
      case alloc (CObj [] None) h3 of (indexes, h4) \<Rightarrow>
        alloc (CObj (objectLiteral [(arrName t, arr), (mapName t, mp),
                                    (''meta'', meta), (''__indexes'', indexes)]) None) h4)"

definition insertToIndex ::
  "tx \<Rightarrow> val \<Rightarrow> val \<Rightarrow> field_opts \<Rightarrow> string \<Rightarrow> val \<Rightarrow> heap \<Rightarrow> (val \<times> heap) option" where
  "insertToIndex t branch ident fieldOpts fieldName x h = do {
     indexes \<leftarrow> js_get h branch ''__indexes'';
     fi \<leftarrow> js_get h indexes fieldName;
     valueIndex0 \<leftarrow> fieldIndexGet h fi x;
     k \<leftarrow> to_key x;
     (valueIndex, h1) \<leftarrow>
       (if isUnique fieldOpts \<and> x \<noteq> VNull then Some (alloc (CArr [ident] None) h)
        else do {
          (vi, h') \<leftarrow> Some (if truthy valueIndex0 then (valueIndex0, h) else alloc (CArr [] None) h);
          if withMutations t then mutable_push ident vi h'
          else batch_push (batchToken t) ident vi h' });
     if withMutations t
       then mutable_setIn [''__indexes'', fieldName, k] valueIndex branch h1
       else batch_setIn (batchToken t) [''__indexes'', fieldName, k] valueIndex branch h1 }"

definition deleteFromIndex ::
  "tx \<Rightarrow> val \<Rightarrow> val \<Rightarrow> field_opts \<Rightarrow> string \<Rightarrow> val \<Rightarrow> heap \<Rightarrow> (val \<times> heap) option" where
  "deleteFromIndex t workingState ident fieldOpts fieldName x h = do {
     indexes \<leftarrow> js_get h workingState ''__indexes'';
     fieldIndex \<leftarrow> js_get h indexes fieldName;
     k \<leftarrow> to_key x;
     if isUnique fieldOpts \<and> x \<noteq> VNull then
       (if withMutations t then do {
          (_, h1) \<leftarrow> mutable_omit [k] fieldIndex h;
          Some (workingState, h1) }
        else do {
          (fi', h1) \<leftarrow> batch_omit (batchToken t) [k] fieldIndex h;
          indexes1 \<leftarrow> js_get h1 workingState ''__indexes'';
          (indexes', h2) \<leftarrow> batch_merge (batchToken t) [(fieldName, fi')] indexes1 h1;
          batch_merge (batchToken t) [(''__indexes'', indexes')] workingState h2 })
     else
       (if withMutations t then do {
          bucket \<leftarrow> js_get h fieldIndex k;
          (_, h1) \<leftarrow> mutable_filter (\<lambda>indexedId. \<not> strictEq indexedId ident) bucket h;
          Some (workingState, h1) }
        else do {
          bucket \<leftarrow> js_get h fieldIndex k;
          (bucket', h1) \<leftarrow> batch_filter (batchToken t) (\<lambda>indexedId. \<not> strictEq indexedId ident) bucket h;
          (fi', h2) \<leftarrow> batch_merge (batchToken t) [(k, bucket')] fieldIndex h1;
          indexes1 \<leftarrow> js_get h2 workingState ''__indexes'';
          (indexes', h3) \<leftarrow> batch_merge (batchToken t) [(fieldName, fi')] indexes1 h2;
          batch_merge (batchToken t) [(''__indexes'', indexes')] workingState h3 }) }"

definition getIndexedFields :: "table \<Rightarrow> string list" where
  "getIndexedFields t =
     map fst (filter (\<lambda>(fieldName, opts).
                        case opts of None \<Rightarrow> False | Some fo \<Rightarrow> index fo \<or> isUnique fo)
                     (tableFields t))"

definition fieldOptsOf :: "table \<Rightarrow> string \<Rightarrow> field_opts" where
  "fieldOptsOf t fieldName =
     (case map_of (tableFields t) fieldName of
        Some (Some fo) \<Rightarrow> fo
      | _ \<Rightarrow> \<lparr>index = False, isUnique = False\<rparr>)"

definition insert_row :: "table \<Rightarrow> tx \<Rightarrow> val \<Rightarrow> val \<Rightarrow> heap \<Rightarrow> ((val \<times> val) \<times> heap) option" where
  "insert_row t tx branch entry h = do {
     hasId \<leftarrow> hasOwnProperty h entry (idAttribute t);
     maxId \<leftarrow> getMaxId h branch;
     passed \<leftarrow> js_get h entry (idAttribute t);
     (newMaxId, newId) \<leftarrow> idSequencer maxId passed;
     (workingState, h1) \<leftarrow> setMaxId tx branch newMaxId h;
     (finalEntry, h2) \<leftarrow>
        (if hasId then Some (entry, h1)
         else batch_set (batchToken tx) (idAttribute t) newId entry h1);
     (workingState', h3) \<leftarrow>
        foldM (\<lambda>fieldName (ws, h'). do {
                 x \<leftarrow> js_get h' entry fieldName;
                 insertToIndex tx ws newId (fieldOptsOf t fieldName) fieldName x h' })
              (getIndexedFields t) (workingState, h2);
     k \<leftarrow> to_key newId;
     if withMutations tx then do {
       arr \<leftarrow> js_get h3 workingState' (arrName t);
       (_, h4) \<leftarrow> mutable_push newId arr h3;
       mp \<leftarrow> js_get h4 workingState' (mapName t);
       (_, h5) \<leftarrow> mutable_set k finalEntry mp h4;
       Some ((workingState', finalEntry), h5) }
     else do {
       arr \<leftarrow> js_get h3 workingState' (arrName t);
       (arr', h4) \<leftarrow> batch_push (batchToken tx) newId arr h3;
       mp \<leftarrow> js_get h4 workingState' (mapName t);
       (mp', h5) \<leftarrow> batch_merge (batchToken tx) [(k, finalEntry)] mp h4;
       (nextState, h6) \<leftarrow>
          batch_merge (batchToken tx)
            (objectLiteral [(arrName t, arr'), (mapName t, mp')]) workingState' h5;
       Some ((nextState, finalEntry), h6) } }"

definition mapFunction :: "tx \<Rightarrow> val \<Rightarrow> val \<Rightarrow> heap \<Rightarrow> (val \<times> heap) option" where
  "mapFunction tx mergeObj row h = do {
     src \<leftarrow> obj_at h mergeObj;
     if withMutations tx then mutable_merge src row h
     else batch_merge (batchToken tx) src row h }"

definition update_rows :: "table \<Rightarrow> tx \<Rightarrow> val \<Rightarrow> val list \<Rightarrow> val \<Rightarrow> heap \<Rightarrow> (val \<times> heap) option" where
  "update_rows t tx branch rows mergeObj h = do {
     map0 \<leftarrow> js_get h branch (mapName t);
     (newMap, h1) \<leftarrow>
        foldM (\<lambda>row (mp, h'). do {
                 (result, h'') \<leftarrow> mapFunction tx mergeObj row h';
                 rid \<leftarrow> js_get h'' result (idAttribute t);
                 k \<leftarrow> to_key rid;
                 if withMutations tx then mutable_set k result mp h''
                 else batch_set (batchToken tx) k result mp h'' })
              rows (map0, h);
     (workingState, h2) \<leftarrow> batch_set (batchToken tx) (mapName t) newMap branch h1;
     foldM (\<lambda>fieldName.
              foldM (\<lambda>row (ws, h'). do {
                       oldId \<leftarrow> js_get h' row (idAttribute t);
                       oldValue \<leftarrow> js_get h' row fieldName;
                       (ws1, h3) \<leftarrow> deleteFromIndex tx ws oldId (fieldOptsOf t fieldName) fieldName oldValue h';
                       (result, h4) \<leftarrow> mapFunction tx mergeObj row h3;
                       newId \<leftarrow> js_get h4 result (idAttribute t);
                       newValue \<leftarrow> js_get h4 result fieldName;
                       insertToIndex tx ws1 newId (fieldOptsOf t fieldName) fieldName newValue h4 })
                    rows)
           (getIndexedFields t) (workingState, h2) }"

fun indexOf :: "val list \<Rightarrow> val \<Rightarrow> nat option" where
  "indexOf [] x = None"
| "indexOf (y # ys) x = (if strictEq y x then Some 0 else map_option Suc (indexOf ys x))"

text \<open>
  \<open>includes\<close> is imported from \<open>../utils\<close>, which is not among the sources:
  membership of a value in an array, found by \<open>indexOf\<close>.
\<close>

definition includes_id :: "val list \<Rightarrow> val \<Rightarrow> bool" where
  "includes_id xs x = (indexOf xs x \<noteq> None)"

definition delete_rows :: "table \<Rightarrow> tx \<Rightarrow> val \<Rightarrow> val list \<Rightarrow> heap \<Rightarrow> (val \<times> heap) option" where
  "delete_rows t tx branch0 rows h = do {
     arr \<leftarrow> js_get h branch0 (arrName t);
     (branch, h1) \<leftarrow>
        foldM (\<lambda>fieldName.
                 foldM (\<lambda>row (b, h'). do {
                          rid \<leftarrow> js_get h' row (idAttribute t);
                          x \<leftarrow> js_get h' row fieldName;
                          deleteFromIndex tx b rid (fieldOptsOf t fieldName) fieldName x h' })
                       rows)
              (getIndexedFields t) (branch0, h);
     idsToDelete \<leftarrow> those (map (\<lambda>row. js_get h1 row (idAttribute t)) rows);
     if withMutations tx then do {
       h2 \<leftarrow> foldM (\<lambda>ident h'. do {
                       xs \<leftarrow> arr_at h' arr;
                       h'' \<leftarrow> (case indexOf xs ident of
                                 Some idx \<Rightarrow> map_option snd (mutable_splice idx 1 arr h')
                               | None \<Rightarrow> Some h');
                       mp \<leftarrow> js_get h'' branch (mapName t);
                       k \<leftarrow> to_key ident;
                       map_option snd (mutable_omit [k] mp h'') })
                    idsToDelete h1;
       Some (branch, h2) }
     else do {
       a \<leftarrow> js_get h1 branch (arrName t);
       (a', h2) \<leftarrow> batch_filter (batchToken tx) (\<lambda>ident. \<not> includes_id idsToDelete ident) a h1;
       mp \<leftarrow> js_get h2 branch (mapName t);
       ks \<leftarrow> those (map to_key idsToDelete);
       (mp', h3) \<leftarrow> batch_omit (batchToken tx) ks mp h2;
       batch_merge (batchToken tx) (objectLiteral [(arrName t, a'), (mapName t, mp')]) branch h3 } }"

subsection \<open>Queries\<close>


text \<open>
  The value that \<open>reduce\<close> carries through the clauses: an array of rows, or the single
  value that the primary-key branch of a filter clause returns.
\<close>

datatype rows = RowArray "val list" | RowValue val







subsection \<open>Reading a branch as a value; running operations\<close>

text \<open>
  The four fields of a storage branch, read out of the store down to the identities and
  the rows' own properties. Two branches are equal field by field when these values are
  equal, whatever the addresses and the sharing.
\<close>

record branch_value =
  identityList :: "val list"
  byIdentity :: "(string \<times> (string \<times> val) list) list"
  metaValue :: "(string \<times> val) list"
  indexesValue :: "(string \<times> (string \<times> val list) list) list"

definition readBranch :: "table \<Rightarrow> heap \<Rightarrow> val \<Rightarrow> branch_value option" where
  "readBranch t h branch = do {
     ids \<leftarrow> accessIdList t h branch;
     mp \<leftarrow> js_get h branch (mapName t);
     entries \<leftarrow> obj_at h mp;
     rowValues \<leftarrow> those (map (\<lambda>(k, r). map_option (Pair k) (obj_at h r)) entries);
     meta \<leftarrow> js_get h branch ''meta'';
     metaProps \<leftarrow> obj_at h meta;
     indexes \<leftarrow> js_get h branch ''__indexes'';
     fieldIndexes \<leftarrow> obj_at h indexes;
     indexValues \<leftarrow>
       those (map (\<lambda>(fieldName, fi). do {
                     buckets \<leftarrow> obj_at h fi;
                     bucketValues \<leftarrow> those (map (\<lambda>(k, b). map_option (Pair k) (arr_at h b)) buckets);
                     Some (fieldName, bucketValues) })
                  fieldIndexes);
     Some \<lparr>identityList = ids, byIdentity = rowValues,
           metaValue = metaProps, indexesValue = indexValues\<rparr> }"

text \<open>
  How a caller drives the table (the session is not part of the sources): an insert
  passes a new entry object; an update and a delete pass the rows that the branch holds
  for the given identities, as references into the branch, the way \<open>query\<close> returns
  them, and an update passes a new merge object.
\<close>

datatype operation =
    Insert "(string \<times> val) list"
  | Update "val list" "(string \<times> val) list"
  | Delete "val list"

definition applyOperation :: "table \<Rightarrow> tx \<Rightarrow> operation \<Rightarrow> val \<times> heap \<Rightarrow> (val \<times> heap) option" where
  "applyOperation t tx oper s =
     (case s of (branch, h) \<Rightarrow>
        (case oper of
           Insert entryProps \<Rightarrow>
             (case alloc (CObj entryProps None) h of
                (entry, h1) \<Rightarrow>
                  map_option (\<lambda>((state, created), h2). (state, h2)) (insert_row t tx branch entry h1))
         | Update ids mergeProps \<Rightarrow> do {
             rows \<leftarrow> those (map (accessId t h branch) ids);
             (mergeObj, h1) \<leftarrow> Some (alloc (CObj mergeProps None) h);
             update_rows t tx branch rows mergeObj h1 }
         | Delete ids \<Rightarrow> do {
             rows \<leftarrow> those (map (accessId t h branch) ids);
             delete_rows t tx branch rows h }))"

definition applyOperations :: "table \<Rightarrow> tx \<Rightarrow> operation list \<Rightarrow> val \<times> heap \<Rightarrow> (val \<times> heap) option" where
  "applyOperations t tx opers s = foldM (applyOperation t tx) opers s"

section \<open>The schema registry (src/Schema.js)\<close>

datatype field = ForeignKey string | ManyToMany string | OneToOne string | Attr

record model =
  modelName :: string
  modelFields :: "(string \<times> field) list"

record schema =
  registry :: "model list"
  implicitThroughModels :: "model list"

text \<open>
  The three naming helpers \<open>m2mName\<close>, \<open>m2mFromFieldName\<close> and \<open>m2mToFieldName\<close>
  are imported from \<open>./utils\<close>, which is not among the sources; the registry takes
  them as parameters.
\<close>

record naming =
  m2mName :: "string \<Rightarrow> string \<Rightarrow> string"
  m2mFromFieldName :: "string \<Rightarrow> string"
  m2mToFieldName :: "string \<Rightarrow> string"

definition newSchema :: schema where
  "newSchema = \<lparr>registry = [], implicitThroughModels = []\<rparr>"

definition throughModel :: "naming \<Rightarrow> string \<Rightarrow> string \<Rightarrow> string \<Rightarrow> model" where
  "throughModel U thisModelName fieldName to =
     (let toModelName = (if to = ''this'' then thisModelName else to);
          fromFieldName = m2mFromFieldName U thisModelName;
          toFieldName = m2mToFieldName U toModelName
      in \<lparr>modelName = m2mName U thisModelName fieldName,
          modelFields = objectLiteral [(fromFieldName, ForeignKey thisModelName),
                                  (toFieldName, ForeignKey toModelName)]\<rparr>)"

definition registerManyToManyModelsFor :: "naming \<Rightarrow> schema \<Rightarrow> model \<Rightarrow> schema" where
  "registerManyToManyModelsFor U s m =
     foldl (\<lambda>s' (fieldName, fieldInstance).
              case fieldInstance of
                ManyToMany to \<Rightarrow>
                  s'\<lparr>implicitThroughModels :=
                       implicitThroughModels s' @ [throughModel U (modelName m) fieldName to]\<rparr>
              | _ \<Rightarrow> s')
           s (modelFields m)"

definition register :: "naming \<Rightarrow> schema \<Rightarrow> model list \<Rightarrow> schema" where
  "register U s models =
     foldl (\<lambda>s' m. let s'' = registerManyToManyModelsFor U s' m
                    in s''\<lparr>registry := registry s'' @ [m]\<rparr>)
           s models"

datatype schema_error = NotFound string

definition get :: "schema \<Rightarrow> string \<Rightarrow> schema_error + model" where
  "get s name =
     (case find (\<lambda>m. modelName m = name) (registry s @ implicitThroughModels s) of
        None \<Rightarrow> Inl (NotFound name)
      | Some found \<Rightarrow> Inr found)"

text \<open>
  The many-to-many fields a definition declares, with their targets, and the
  join-collection definitions that registering the definition is to synthesise: one for
  each of them, in the order of the fields.
\<close>

fun manyToManyFields :: "(string \<times> field) list \<Rightarrow> (string \<times> string) list" where
  "manyToManyFields [] = []"
| "manyToManyFields ((fieldName, ManyToMany to) # fs) = (fieldName, to) # manyToManyFields fs"
| "manyToManyFields (_ # fs) = manyToManyFields fs"

definition joinModelsFor :: "naming \<Rightarrow> model \<Rightarrow> model list" where
  "joinModelsFor U m =
     map (\<lambda>(fieldName, to). throughModel U (modelName m) fieldName to)
         (manyToManyFields (modelFields m))"

section \<open>What a call leaves alone\<close>

text \<open>
  A cell is owned by a batch when it carries the batch's tag. \<open>preserved tok h0 h\<close>: the
  store \<open>h\<close> extends \<open>h0\<close>, and every cell of \<open>h0\<close> that the batch does not own is
  still what it was. \<open>mutableAt\<close>: the addresses a batch function may write to, those
  allocated since \<open>h0\<close> and those the batch owns.

  \<open>snapshotKept\<close> states the guarantee for a caller that keeps the old branch: the cells
  the batch does not own are unchanged; and when the batch owns nothing in the old store,
  the old store is a prefix of the new one and the old branch reads as it did.
\<close>

definition ownedBy :: "nat option \<Rightarrow> cell \<Rightarrow> bool" where
  "ownedBy tok c = (tok \<noteq> None \<and> owner c = tok)"

definition preserved :: "nat option \<Rightarrow> heap \<Rightarrow> heap \<Rightarrow> bool" where
  "preserved tok h0 h =
     (length h0 \<le> length h \<and> (\<forall>a < length h0. \<not> ownedBy tok (h0 ! a) \<longrightarrow> h ! a = h0 ! a))"

definition mutableAt :: "nat option \<Rightarrow> heap \<Rightarrow> heap \<Rightarrow> addr \<Rightarrow> bool" where
  "mutableAt tok h0 h a = (length h0 \<le> a \<or> (a < length h \<and> ownedBy tok (h ! a)))"

definition snapshotKept :: "table \<Rightarrow> nat option \<Rightarrow> val \<Rightarrow> heap \<Rightarrow> heap \<Rightarrow> bool" where
  "snapshotKept t tok branch h h' =
     ((\<forall>a < length h. \<not> ownedBy tok (h ! a) \<longrightarrow> a < length h' \<and> h' ! a = h ! a) \<and>
      ((\<forall>c \<in> set h. \<not> ownedBy tok c) \<longrightarrow>
         take (length h) h' = h \<and>
         (\<forall>V. readBranch t h branch = Some V \<longrightarrow> readBranch t h' branch = Some V)))"

section \<open>Example data\<close>

text \<open>
  Concrete tables, transactions, operation sequences and a schema, on which the theorems
  below are instantiated and the operations are run.
\<close>

definition plainTable :: table where
  "plainTable = \<lparr>idAttribute = ''id'', arrName = ''items'', mapName = ''itemsById'',
                  useIndex = True, tableFields = []\<rparr>"

definition exampleTable :: table where
  "exampleTable = \<lparr>idAttribute = ''id'', arrName = ''items'', mapName = ''itemsById'',
                    useIndex = True,
                    tableFields = [(''name'', Some \<lparr>index = True, isUnique = False\<rparr>),
                                   (''email'', Some \<lparr>index = False, isUnique = True\<rparr>)]\<rparr>"

definition txCopy :: tx where
  "txCopy = \<lparr>batchToken = Some 1, withMutations = False\<rparr>"

definition txMutate :: tx where
  "txMutate = \<lparr>batchToken = Some 1, withMutations = True\<rparr>"

definition twoRows :: "(val \<times> heap) option" where
  "twoRows = applyOperations exampleTable txCopy
               [Insert [(''id'', VNum 1), (''name'', VStr ''a''), (''email'', VStr ''x'')],
                Insert [(''id'', VNum 2), (''name'', VStr ''b''), (''email'', VStr ''y'')]]
               (getEmptyState exampleTable [])"

definition sequencerRun :: "operation list" where
  "sequencerRun = [Insert [], Insert [], Insert [], Insert [],
                   Insert [(''id'', VNum 10)], Insert []]"

definition staleIndexRun :: "operation list" where
  "staleIndexRun =
     [Insert [(''id'', VNum 1), (''name'', VStr ''a''), (''email'', VStr ''x'')],
      Insert [(''id'', VNum 2), (''name'', VStr ''b''), (''email'', VStr ''y'')],
      Update [VNum 1] [(''name'', VStr ''b'')]]"

definition nullUniqueRun :: "operation list" where
  "nullUniqueRun =
     [Insert [(''name'', VStr ''a''), (''email'', VNull)],
      Insert [(''name'', VStr ''b''), (''email'', VNull)]]"

definition exampleNaming :: naming where
  "exampleNaming = \<lparr>m2mName = (\<lambda>declarationModelName fieldName. declarationModelName @ ''_'' @ fieldName),
                     m2mFromFieldName = (\<lambda>declarationModelName. ''from'' @ declarationModelName @ ''Id''),
                     m2mToFieldName = (\<lambda>otherModelName. ''to'' @ otherModelName @ ''Id'')\<rparr>"

definition bookModel :: model where
  "bookModel = \<lparr>modelName = ''Book'',
                 modelFields = [(''publisher'', ForeignKey ''Publisher''),
                                (''authors'', ManyToMany ''Author''),
                                (''related'', ManyToMany ''this'')]\<rparr>"

definition authorModel :: model where
  "authorModel = \<lparr>modelName = ''Author'', modelFields = []\<rparr>"

definition txOther :: tx where
  "txOther = \<lparr>batchToken = Some 2, withMutations = False\<rparr>"

definition twoRowsStore :: heap where
  "twoRowsStore =
     (case twoRows of
        Some (b, h) \<Rightarrow> h @ [CObj [(''name'', VStr ''c''), (''email'', VStr ''z'')] None]
      | None \<Rightarrow> [])"

section \<open>Identity sequencing\<close>

section \<open>The schema registry\<close>

lemma m2m_fold:
  "foldl (\<lambda>s' (fieldName, fieldInstance).
              case fieldInstance of
                ManyToMany to \<Rightarrow>
                  s'\<lparr>implicitThroughModels :=
                       implicitThroughModels s' @ [throughModel U nm fieldName to]\<rparr>
              | _ \<Rightarrow> s') s fs
   = s\<lparr>implicitThroughModels := implicitThroughModels s @
         map (\<lambda>(fieldName, to). throughModel U nm fieldName to) (manyToManyFields fs)\<rparr>"
proof (induction fs arbitrary: s rule: manyToManyFields.induct)
  case 1
  show ?case by simp
next
  case (2 fieldName to fs)
  show ?case by (simp add: "2.IH")
qed (simp_all)

lemma rm2m: "registerManyToManyModelsFor U s m =
   s\<lparr>implicitThroughModels := implicitThroughModels s @ joinModelsFor U m\<rparr>"
  by (simp add: registerManyToManyModelsFor_def joinModelsFor_def m2m_fold)

lemma register_eq: "register U s ms =
   \<lparr>registry = registry s @ ms,
    implicitThroughModels = implicitThroughModels s @ concat (map (joinModelsFor U) ms)\<rparr>"
  unfolding register_def
proof (induction ms arbitrary: s)
  case Nil show ?case by simp
next
  case (Cons m ms)
  show ?case using Cons.IH [of "(registerManyToManyModelsFor U s m)\<lparr>registry := registry s @ [m]\<rparr>"]
    by (simp add: rm2m Let_def)
qed

lemma find_append: "find P (xs @ ys) = (case find P xs of None \<Rightarrow> find P ys | Some x \<Rightarrow> Some x)"
  by (induction xs) auto

lemma objectLiteral_two:
  "objectLiteral [(a, x), (b, y)] = (if a = b then [(a, y)] else [(a, x), (b, y)])"
  by (simp add: objectLiteral_def)

text \<open>
  Claim C8, as stated, fails: registering a definition a second time synthesises its
  join-collections a second time (here for every choice of the naming helpers).
\<close>

theorem register_twice_counterexample:
  "\<forall>U. implicitThroughModels
          (register U newSchema
             [\<lparr>modelName = ''Book'', modelFields = [(''authors'', ManyToMany ''Author'')]\<rparr>,
              \<lparr>modelName = ''Book'', modelFields = [(''authors'', ManyToMany ''Author'')]\<rparr>])
        = [throughModel U ''Book'' ''authors'' ''Author'',
           throughModel U ''Book'' ''authors'' ''Author'']"
  by (simp add: register_eq joinModelsFor_def newSchema_def)

text \<open>
  Claim C8, amended. Each registration of a definition appends the definition to the
  explicit registry and, for every many-to-many field it declares, exactly one
  join-collection definition to the implicit list and to nothing else, in the order of
  the fields; the join-collection is named by \<open>m2mName\<close> from the owning collection and
  the field, and it holds the two foreign keys to the owning collection and to the target
  (\<open>this\<close> resolved to the owning collection) whenever the two helper names for them
  differ. Nothing is looked up before appending, so a definition registered again gets
  its join-collections again.
\<close>

theorem register_join_models:
  "register U s ms =
     \<lparr>registry = registry s @ ms,
      implicitThroughModels = implicitThroughModels s @ concat (map (joinModelsFor U) ms)\<rparr>
   \<and> joinModelsFor U m =
       map (\<lambda>(fieldName, to). throughModel U (modelName m) fieldName to)
           (manyToManyFields (modelFields m))
   \<and> modelName (throughModel U owning fieldName to) = m2mName U owning fieldName
   \<and> (m2mFromFieldName U owning \<noteq> m2mToFieldName U (if to = ''this'' then owning else to) \<longrightarrow>
        modelFields (throughModel U owning fieldName to) =
          [(m2mFromFieldName U owning, ForeignKey owning),
           (m2mToFieldName U (if to = ''this'' then owning else to),
            ForeignKey (if to = ''this'' then owning else to))])"
  by (simp add: register_eq joinModelsFor_def throughModel_def Let_def objectLiteral_two)

theorem register_join_models_witness:
  "register exampleNaming newSchema [bookModel, authorModel] =
     \<lparr>registry = [bookModel, authorModel],
      implicitThroughModels =
        [\<lparr>modelName = ''Book_authors'',
          modelFields = [(''fromBookId'', ForeignKey ''Book''), (''toAuthorId'', ForeignKey ''Author'')]\<rparr>,
         \<lparr>modelName = ''Book_related'',
          modelFields = [(''fromBookId'', ForeignKey ''Book''), (''toBookId'', ForeignKey ''Book'')]\<rparr>]\<rparr>
   \<and> ''fromBookId'' \<noteq> ''toBookId''
   \<and> modelFields (throughModel exampleNaming ''Book'' ''related'' ''this'') =
        [(''fromBookId'', ForeignKey ''Book''), (''toBookId'', ForeignKey ''Book'')]"
  using register_join_models [of exampleNaming newSchema "[bookModel, authorModel]" bookModel
                                 "''Book''" "''related''" "''this''"]
  by (simp add: joinModelsFor_def exampleNaming_def newSchema_def bookModel_def authorModel_def
                throughModel_def objectLiteral_two)

text \<open>
  Claim C9. \<open>get\<close> searches the explicit registry and then the implicit list, returns
  the first definition of the given name, and fails with \<open>NotFound\<close> exactly when no
  definition of either list has the name.
\<close>

theorem get_explicit_then_implicit:
  "get s name =
     (case find (\<lambda>m. modelName m = name) (registry s) of
        Some m \<Rightarrow> Inr m
      | None \<Rightarrow>
          (case find (\<lambda>m. modelName m = name) (implicitThroughModels s) of
             Some m \<Rightarrow> Inr m
           | None \<Rightarrow> Inl (NotFound name)))
   \<and> (get s name = Inr m \<longleftrightarrow>
        (\<exists>i < length (registry s @ implicitThroughModels s).
           (registry s @ implicitThroughModels s) ! i = m \<and> modelName m = name \<and>
           (\<forall>j < i. modelName ((registry s @ implicitThroughModels s) ! j) \<noteq> name)))
   \<and> ((\<exists>e. get s name = Inl e) \<longleftrightarrow>
        (\<forall>m \<in> set (registry s) \<union> set (implicitThroughModels s). modelName m \<noteq> name))"
proof (intro conjI)
  show "get s name =
     (case find (\<lambda>m. modelName m = name) (registry s) of
        Some m \<Rightarrow> Inr m
      | None \<Rightarrow>
          (case find (\<lambda>m. modelName m = name) (implicitThroughModels s) of
             Some m \<Rightarrow> Inr m
           | None \<Rightarrow> Inl (NotFound name)))"
    by (simp add: get_def find_append split: option.splits)
next
  let ?all = "registry s @ implicitThroughModels s"
  have "get s name = Inr m \<longleftrightarrow> find (\<lambda>m. modelName m = name) ?all = Some m"
    by (simp add: get_def split: option.splits)
  also have "\<dots> \<longleftrightarrow> (\<exists>i < length ?all. ?all ! i = m \<and> modelName m = name \<and>
           (\<forall>j < i. modelName (?all ! j) \<noteq> name))"
    unfolding find_Some_iff by blast
  finally show "get s name = Inr m \<longleftrightarrow>
        (\<exists>i < length ?all. ?all ! i = m \<and> modelName m = name \<and>
           (\<forall>j < i. modelName (?all ! j) \<noteq> name))" .
next
  have "(\<exists>e. get s name = Inl e) \<longleftrightarrow>
      find (\<lambda>m. modelName m = name) (registry s @ implicitThroughModels s) = None"
    by (simp add: get_def split: option.splits)
  then show "(\<exists>e. get s name = Inl e) \<longleftrightarrow>
        (\<forall>m \<in> set (registry s) \<union> set (implicitThroughModels s). modelName m \<noteq> name)"
    by (auto simp: find_None_iff)
qed

theorem get_explicit_then_implicit_witness:
  "get (register exampleNaming newSchema [bookModel, authorModel]) ''Author'' = Inr authorModel
   \<and> get (register exampleNaming newSchema [bookModel, authorModel]) ''Book_related''
       = Inr (throughModel exampleNaming ''Book'' ''related'' ''this'')
   \<and> get (register exampleNaming newSchema [bookModel, authorModel]) ''Reader''
       = Inl (NotFound ''Reader'')"
proof -
  let ?s = "register exampleNaming newSchema [bookModel, authorModel]"
  have s: "?s = \<lparr>registry = [bookModel, authorModel],
                  implicitThroughModels =
                    [throughModel exampleNaming ''Book'' ''authors'' ''Author'',
                     throughModel exampleNaming ''Book'' ''related'' ''this'']\<rparr>"
    by (simp add: register_eq joinModelsFor_def newSchema_def bookModel_def authorModel_def)
  have n: "modelName bookModel = ''Book''" "modelName authorModel = ''Author''"
    "modelName (throughModel exampleNaming ''Book'' ''authors'' ''Author'') = ''Book_authors''"
    "modelName (throughModel exampleNaming ''Book'' ''related'' ''this'') = ''Book_related''"
    by (simp_all add: bookModel_def authorModel_def throughModel_def exampleNaming_def Let_def)
  show ?thesis
    using get_explicit_then_implicit [THEN conjunct1, of ?s "''Author''"]
          get_explicit_then_implicit [THEN conjunct1, of ?s "''Book_related''"]
          get_explicit_then_implicit [THEN conjunct1, of ?s "''Reader''"]
    by (simp add: s n)
qed

section \<open>Queries\<close>






section \<open>Unique indexes and the mutation modes\<close>

text \<open>
  Claim C4: the code departs from it. The same three operations (two inserts, then an
  update of record \<open>1\<close> that changes the indexed field \<open>name\<close> from \<open>a\<close> to \<open>b\<close>)
  from the empty state give equal identity lists, rows and metadata in both modes, but
  different indexes: with \<open>withMutations = true\<close> the row has already been merged in
  place when \<open>update\<close> reads the old value to clear, so identity \<open>1\<close> stays in the
  bucket of \<open>a\<close>.
\<close>

theorem mutation_modes_differ:
  "(do { (b, h) \<leftarrow> applyOperations exampleTable txCopy staleIndexRun (getEmptyState exampleTable []);
         v \<leftarrow> readBranch exampleTable h b;
         Some (identityList v, byIdentity v, metaValue v, map_of (indexesValue v) ''name'') })
     = Some ([VNum 1, VNum 2],
             [(''1'', [(''id'', VNum 1), (''name'', VStr ''b''), (''email'', VStr ''x'')]),
              (''2'', [(''id'', VNum 2), (''name'', VStr ''b''), (''email'', VStr ''y'')])],
             [(''maxId'', VNum 2)],
             Some [(''a'', []), (''b'', [VNum 2, VNum 1])])
   \<and> (do { (b, h) \<leftarrow> applyOperations exampleTable txMutate staleIndexRun (getEmptyState exampleTable []);
         v \<leftarrow> readBranch exampleTable h b;
         Some (identityList v, byIdentity v, metaValue v, map_of (indexesValue v) ''name'') })
     = Some ([VNum 1, VNum 2],
             [(''1'', [(''id'', VNum 1), (''name'', VStr ''b''), (''email'', VStr ''x'')]),
              (''2'', [(''id'', VNum 2), (''name'', VStr ''b''), (''email'', VStr ''y'')])],
             [(''maxId'', VNum 2)],
             Some [(''a'', [VNum 1]), (''b'', [VNum 2, VNum 1])])
   \<and> (do { (b, h) \<leftarrow> applyOperations exampleTable txCopy staleIndexRun (getEmptyState exampleTable []);
         getIdListByIndex h b ''name'' (VStr ''a'') }) = Some []
   \<and> (do { (b, h) \<leftarrow> applyOperations exampleTable txMutate staleIndexRun (getEmptyState exampleTable []);
         getIdListByIndex h b ''name'' (VStr ''a'') }) = Some [VNum 1]"
  by (intro conjI; code_simp)

section \<open>Copy-on-write calls leave the old branch alone\<close>

lemma preserved_refl: "preserved tok h h"
  by (simp add: preserved_def)

lemma preserved_alloc: "preserved tok h0 h \<Longrightarrow> alloc c h = (v, h') \<Longrightarrow> preserved tok h0 h'"
  by (auto simp: preserved_def alloc_def nth_append)

lemma preserved_update:
  "preserved tok h0 h \<Longrightarrow> mutableAt tok h0 h a \<Longrightarrow> preserved tok h0 (h[a := c])"
  by (auto simp: preserved_def mutableAt_def nth_list_update)

lemma canMutate_mutableAt:
  "canMutate h tok (VRef a) \<Longrightarrow> mutableAt tok h0 h a"
  by (auto simp: canMutate_def mutableAt_def cell_at_def ownedBy_def split: option.splits if_splits)

lemma canMutate_ref: "canMutate h tok v \<Longrightarrow> \<exists>a. v = VRef a"
  by (cases v) (auto simp: canMutate_def cell_at_def)

lemma upd_obj_preserved:
  "upd_obj f (VRef a) h = Some (v, h') \<Longrightarrow> preserved tok h0 h \<Longrightarrow> mutableAt tok h0 h a
   \<Longrightarrow> preserved tok h0 h'"
  by (auto simp: upd_obj_def preserved_update split: option.splits cell.splits)

lemma upd_arr_preserved:
  "upd_arr f (VRef a) h = Some (v, h') \<Longrightarrow> preserved tok h0 h \<Longrightarrow> mutableAt tok h0 h a
   \<Longrightarrow> preserved tok h0 h'"
  by (auto simp: upd_arr_def preserved_update split: option.splits cell.splits)

lemma batch_push_preserved:
  "batch_push tok x arr h = Some (v, h') \<Longrightarrow> preserved tok h0 h \<Longrightarrow> preserved tok h0 h'"
  by (auto simp: batch_push_def mutable_push_def split: if_splits
           dest: canMutate_ref canMutate_mutableAt upd_arr_preserved preserved_alloc)

lemma batch_filter_preserved:
  "batch_filter tok P arr h = Some (v, h') \<Longrightarrow> preserved tok h0 h \<Longrightarrow> preserved tok h0 h'"
  by (auto simp: batch_filter_def mutable_filter_def split: if_splits
           dest: canMutate_ref canMutate_mutableAt upd_arr_preserved preserved_alloc)

lemma batch_set_preserved:
  "batch_set tok k x ob h = Some (v, h') \<Longrightarrow> preserved tok h0 h \<Longrightarrow> preserved tok h0 h'"
  by (auto simp: batch_set_def mutable_set_def split: if_splits
           dest: canMutate_ref canMutate_mutableAt upd_obj_preserved preserved_alloc)

lemma batch_omit_preserved:
  "batch_omit tok ks ob h = Some (v, h') \<Longrightarrow> preserved tok h0 h \<Longrightarrow> preserved tok h0 h'"
  by (auto simp: batch_omit_def mutable_omit_def split: if_splits
           dest: canMutate_ref canMutate_mutableAt upd_obj_preserved preserved_alloc)

lemma batch_merge_preserved:
  "batch_merge tok src ob h = Some (v, h') \<Longrightarrow> preserved tok h0 h \<Longrightarrow> preserved tok h0 h'"
proof (cases "canMutate h tok ob")
  case True
  assume "batch_merge tok src ob h = Some (v, h')" "preserved tok h0 h"
  with True show ?thesis
    by (auto simp: batch_merge_def mutable_merge_def split: if_splits
             dest: canMutate_ref canMutate_mutableAt upd_obj_preserved)
next
  case False
  assume a: "batch_merge tok src ob h = Some (v, h')" "preserved tok h0 h"
  with False obtain ps where ps: "obj_at h ob = Some ps"
    by (auto simp: batch_merge_def split: if_splits)
  obtain ps' ch where m: "merge_changes src ps = (ps', ch)" by (cases "merge_changes src ps")
  from a False ps m show ?thesis
    by (auto simp: batch_merge_def split: if_splits dest: preserved_alloc)
qed

lemma mutableAt_alloc:
  "mutableAt tok h0 h a \<Longrightarrow> alloc c h = (v, h1) \<Longrightarrow> mutableAt tok h0 h1 a"
  by (auto simp: mutableAt_def alloc_def nth_append)

lemma alloc_fresh:
  "alloc c h = (v, h1) \<Longrightarrow> preserved tok h0 h \<Longrightarrow> \<exists>a. v = VRef a \<and> mutableAt tok h0 h2 a"
  by (auto simp: alloc_def mutableAt_def preserved_def)

lemma mutable_set_ref: "mutable_set k x acc h = Some r \<Longrightarrow> \<exists>a. acc = VRef a"
  by (cases acc) (auto simp: mutable_set_def upd_obj_def split: if_splits)

lemma mutable_set_preserved:
  "mutable_set k x (VRef a) h = Some (v, h') \<Longrightarrow> preserved tok h0 h \<Longrightarrow> mutableAt tok h0 h a
   \<Longrightarrow> preserved tok h0 h'"
  by (auto simp: mutable_set_def split: if_splits dest: upd_obj_preserved)

lemma batch_setIn_from_preserved:
  "batch_setIn_from tok path x acc h = Some h' \<Longrightarrow> preserved tok h0 h \<Longrightarrow>
   (\<And>a. acc = VRef a \<Longrightarrow> mutableAt tok h0 h a) \<Longrightarrow> preserved tok h0 h'"
proof (induction tok path x acc h arbitrary: h' rule: batch_setIn_from.induct)
  case (1 ownerID x acc h)
  then show ?case by simp
next
  case (2 ownerID k x acc h)
  from "2.prems"(1) obtain r where r: "mutable_set k x acc h = Some r" by auto
  then obtain a where a: "acc = VRef a" by (auto dest: mutable_set_ref)
  with r "2.prems" show ?case
    by (cases r) (auto dest: mutable_set_preserved)
next
  case (3 ownerID k v va x acc h)
  let ?rest = "v # va"
  from "3.prems"(1) obtain y where y: "js_get h acc k = Some y"
    by (auto split: option.splits)
  show ?case
  proof (cases y)
    case VUndef
    obtain newObj h1 where al: "alloc (CObj [] ownerID) h = (newObj, h1)"
      by (cases "alloc (CObj [] ownerID) h")
    from "3.prems"(1) y VUndef al obtain r h2 where
      ms: "mutable_set k newObj acc h1 = Some (r, h2)" and
      rec: "batch_setIn_from ownerID ?rest x newObj h2 = Some h'"
      by (auto split: option.splits)
    from ms obtain a where a: "acc = VRef a" by (auto dest: mutable_set_ref)
    have p1: "preserved ownerID h0 h1" using "3.prems"(2) al by (rule preserved_alloc)
    have "mutableAt ownerID h0 h1 a" using "3.prems"(3) [OF a] al by (rule mutableAt_alloc)
    with ms a p1 have p2: "preserved ownerID h0 h2" by (auto dest: mutable_set_preserved)
    from al "3.prems"(2) obtain n where n: "newObj = VRef n" "mutableAt ownerID h0 h2 n"
      using alloc_fresh by blast
    show ?thesis
      by (rule "3.IH"(1) [OF y VUndef al [symmetric] ms refl rec p2]) (use n in auto)
  next
    case (VRef c)
    show ?thesis
    proof (cases "canMutate h ownerID (VRef c)")
      case True
      with "3.prems"(1) y VRef have rec: "batch_setIn_from ownerID ?rest x (VRef c) h = Some h'"
        by simp
      show ?thesis
        by (rule "3.IH"(2) [OF y VRef True rec "3.prems"(2)])
           (use True in \<open>auto dest: canMutate_mutableAt\<close>)
    next
      case False
      with "3.prems"(1) y VRef obtain ps where ps: "obj_at h (VRef c) = Some ps"
        by (auto split: option.splits)
      obtain newObj h1 where al: "alloc (CObj ps ownerID) h = (newObj, h1)"
        by (cases "alloc (CObj ps ownerID) h")
      from "3.prems"(1) y VRef False ps al obtain r h2 where
        ms: "mutable_set k newObj acc h1 = Some (r, h2)" and
        rec: "batch_setIn_from ownerID ?rest x newObj h2 = Some h'"
        by (auto split: option.splits)
      from ms obtain a where a: "acc = VRef a" by (auto dest: mutable_set_ref)
      have p1: "preserved ownerID h0 h1" using "3.prems"(2) al by (rule preserved_alloc)
      have "mutableAt ownerID h0 h1 a" using "3.prems"(3) [OF a] al by (rule mutableAt_alloc)
      with ms a p1 have p2: "preserved ownerID h0 h2" by (auto dest: mutable_set_preserved)
      from al "3.prems"(2) obtain n where n: "newObj = VRef n" "mutableAt ownerID h0 h2 n"
        using alloc_fresh by blast
      show ?thesis
        by (rule "3.IH"(3) [OF y VRef False ps al [symmetric] ms refl rec p2]) (use n in auto)
    qed
  qed (use "3.prems"(1) y in auto)
qed

lemma batch_setIn_preserved:
  "batch_setIn tok path x ob h = Some (v, h') \<Longrightarrow> preserved tok h0 h \<Longrightarrow> preserved tok h0 h'"
proof -
  assume a: "batch_setIn tok path x ob h = Some (v, h')" and p: "preserved tok h0 h"
  from a obtain cur where cur: "valueInPath h path ob = Some cur"
    by (auto simp: batch_setIn_def split: option.splits)
  show ?thesis
  proof (cases "strictEq x cur")
    case True
    with a cur p show ?thesis by (simp add: batch_setIn_def)
  next
    case False
    show ?thesis
    proof (cases "canMutate h tok ob")
      case True
      with a cur False have "batch_setIn_from tok path x ob h = Some h'"
        by (auto simp: batch_setIn_def)
      then show ?thesis using p
        by (rule batch_setIn_from_preserved) (use True in \<open>auto dest: canMutate_mutableAt\<close>)
    next
      case nm: False
      with a cur False obtain ps where ps: "obj_at h ob = Some ps"
        by (auto simp: batch_setIn_def split: option.splits)
      obtain root h1 where al: "alloc (CObj ps tok) h = (root, h1)"
        by (cases "alloc (CObj ps tok) h")
      with a cur False nm ps have rec: "batch_setIn_from tok path x root h1 = Some h'"
        by (auto simp: batch_setIn_def)
      have p1: "preserved tok h0 h1" using p al by (rule preserved_alloc)
      from al p obtain n where n: "root = VRef n" "mutableAt tok h0 h1 n"
        using alloc_fresh by blast
      show ?thesis
        by (rule batch_setIn_from_preserved [OF rec p1]) (use n in auto)
    qed
  qed
qed

lemma foldM_preserved:
  assumes step: "\<And>x ws h ws' h'. preserved tok h0 h \<Longrightarrow> f x (ws, h) = Some (ws', h') \<Longrightarrow> preserved tok h0 h'"
  shows "preserved tok h0 h \<Longrightarrow> foldM f xs (ws, h) = Some (ws', h') \<Longrightarrow> preserved tok h0 h'"
proof (induction xs arbitrary: ws h)
  case Nil
  then show ?case by simp
next
  case (Cons x xs)
  from Cons.prems(2) obtain ws1 h1 where s1: "f x (ws, h) = Some (ws1, h1)"
    and rest: "foldM f xs (ws1, h1) = Some (ws', h')"
    by (auto split: option.splits)
  from step [OF Cons.prems(1) s1] rest show ?case by (rule Cons.IH)
qed

lemma setMeta_preserved:
  "setMeta tx branch key x h = Some (v, h') \<Longrightarrow> \<not> withMutations tx \<Longrightarrow>
   preserved (batchToken tx) h0 h \<Longrightarrow> preserved (batchToken tx) h0 h'"
  by (auto simp: setMeta_def dest: batch_setIn_preserved)

lemma insertToIndex_preserved:
  "insertToIndex tx branch ident fo fieldName x h = Some (v, h') \<Longrightarrow> \<not> withMutations tx \<Longrightarrow>
   preserved (batchToken tx) h0 h \<Longrightarrow> preserved (batchToken tx) h0 h'"
  apply (auto simp: insertToIndex_def split: Option.bind_splits if_splits prod.splits)
  apply (blast dest: batch_setIn_preserved batch_push_preserved preserved_alloc)+
  done

lemma deleteFromIndex_preserved:
  "deleteFromIndex tx ws ident fo fieldName x h = Some (v, h') \<Longrightarrow> \<not> withMutations tx \<Longrightarrow>
   preserved (batchToken tx) h0 h \<Longrightarrow> preserved (batchToken tx) h0 h'"
  apply (auto simp: deleteFromIndex_def split: Option.bind_splits if_splits prod.splits)
  apply (blast dest: batch_omit_preserved batch_merge_preserved batch_filter_preserved)+
  done

lemma mapFunction_preserved:
  "mapFunction tx mergeObj row h = Some (v, h') \<Longrightarrow> \<not> withMutations tx \<Longrightarrow>
   preserved (batchToken tx) h0 h \<Longrightarrow> preserved (batchToken tx) h0 h'"
  by (auto simp: mapFunction_def split: Option.bind_splits dest: batch_merge_preserved)

lemma setMaxId_preserved:
  "setMaxId tx branch x h = Some (v, h') \<Longrightarrow> \<not> withMutations tx \<Longrightarrow>
   preserved (batchToken tx) h0 h \<Longrightarrow> preserved (batchToken tx) h0 h'"
  unfolding setMaxId_def by (rule setMeta_preserved)

lemma insert_loop_preserved:
  "foldM (\<lambda>fieldName (ws, h'). do {
            x \<leftarrow> js_get h' entry fieldName;
            insertToIndex tx ws ident (fieldOptsOf t fieldName) fieldName x h' })
         fs (ws, h) = Some (ws', h') \<Longrightarrow> \<not> withMutations tx \<Longrightarrow>
   preserved (batchToken tx) h0 h \<Longrightarrow> preserved (batchToken tx) h0 h'"
  by (erule foldM_preserved [rotated 2])
     (auto split: Option.bind_splits dest: insertToIndex_preserved)

lemma insert_row_preserved:
  "insert_row t tx branch entry h = Some (r, h') \<Longrightarrow> \<not> withMutations tx \<Longrightarrow>
   preserved (batchToken tx) h0 h \<Longrightarrow> preserved (batchToken tx) h0 h'"
  apply (auto simp: insert_row_def split: Option.bind_splits if_splits prod.splits)
  apply (blast dest: setMaxId_preserved batch_set_preserved insert_loop_preserved
                     batch_push_preserved batch_merge_preserved)+
  done

lemma update_map_loop_preserved:
  "foldM (\<lambda>row (mp, h'). do {
            (result, h'') \<leftarrow> mapFunction tx mergeObj row h';
            rid \<leftarrow> js_get h'' result (idAttribute t);
            k \<leftarrow> to_key rid;
            if withMutations tx then mutable_set k result mp h''
            else batch_set (batchToken tx) k result mp h'' })
         rows (mp, h) = Some (mp', h') \<Longrightarrow> \<not> withMutations tx \<Longrightarrow>
   preserved (batchToken tx) h0 h \<Longrightarrow> preserved (batchToken tx) h0 h'"
  apply (erule foldM_preserved [rotated 2])
   apply (auto split: Option.bind_splits prod.splits)
  apply (blast dest: mapFunction_preserved batch_set_preserved)
  done

lemma update_index_rows_preserved:
  "foldM (\<lambda>row (ws, h'). do {
            oldId \<leftarrow> js_get h' row (idAttribute t);
            oldValue \<leftarrow> js_get h' row fieldName;
            (ws1, h3) \<leftarrow> deleteFromIndex tx ws oldId (fieldOptsOf t fieldName) fieldName oldValue h';
            (result, h4) \<leftarrow> mapFunction tx mergeObj row h3;
            newId \<leftarrow> js_get h4 result (idAttribute t);
            newValue \<leftarrow> js_get h4 result fieldName;
            insertToIndex tx ws1 newId (fieldOptsOf t fieldName) fieldName newValue h4 })
         rows (ws, h) = Some (ws', h') \<Longrightarrow> \<not> withMutations tx \<Longrightarrow>
   preserved (batchToken tx) h0 h \<Longrightarrow> preserved (batchToken tx) h0 h'"
  apply (erule foldM_preserved [rotated 2])
   apply (auto split: Option.bind_splits prod.splits)
  apply (blast dest: mapFunction_preserved deleteFromIndex_preserved insertToIndex_preserved)
  done

lemma update_index_loop_preserved:
  "foldM (\<lambda>fieldName.
            foldM (\<lambda>row (ws, h'). do {
                     oldId \<leftarrow> js_get h' row (idAttribute t);
                     oldValue \<leftarrow> js_get h' row fieldName;
                     (ws1, h3) \<leftarrow> deleteFromIndex tx ws oldId (fieldOptsOf t fieldName) fieldName oldValue h';
                     (result, h4) \<leftarrow> mapFunction tx mergeObj row h3;
                     newId \<leftarrow> js_get h4 result (idAttribute t);
                     newValue \<leftarrow> js_get h4 result fieldName;
                     insertToIndex tx ws1 newId (fieldOptsOf t fieldName) fieldName newValue h4 })
                  rows)
         fs (ws, h) = Some (ws', h') \<Longrightarrow> \<not> withMutations tx \<Longrightarrow>
   preserved (batchToken tx) h0 h \<Longrightarrow> preserved (batchToken tx) h0 h'"
  by (erule foldM_preserved [rotated 2]) (auto dest: update_index_rows_preserved)

lemma update_rows_preserved:
  assumes a: "update_rows t tx branch rows mergeObj h = Some (r, h')"
    and nm: "\<not> withMutations tx" and p: "preserved (batchToken tx) h0 h"
  shows "preserved (batchToken tx) h0 h'"
proof -
  from a obtain map0 newMap h1 ws h2 where
    l1: "foldM (\<lambda>row (mp, h'). do {
                 (result, h'') \<leftarrow> mapFunction tx mergeObj row h';
                 rid \<leftarrow> js_get h'' result (idAttribute t);
                 k \<leftarrow> to_key rid;
                 if withMutations tx then mutable_set k result mp h''
                 else batch_set (batchToken tx) k result mp h'' })
              rows (map0, h) = Some (newMap, h1)" and
    s: "batch_set (batchToken tx) (mapName t) newMap branch h1 = Some (ws, h2)" and
    l2: "foldM (\<lambda>fieldName.
              foldM (\<lambda>row (ws, h'). do {
                       oldId \<leftarrow> js_get h' row (idAttribute t);
                       oldValue \<leftarrow> js_get h' row fieldName;
                       (ws1, h3) \<leftarrow> deleteFromIndex tx ws oldId (fieldOptsOf t fieldName) fieldName oldValue h';
                       (result, h4) \<leftarrow> mapFunction tx mergeObj row h3;
                       newId \<leftarrow> js_get h4 result (idAttribute t);
                       newValue \<leftarrow> js_get h4 result fieldName;
                       insertToIndex tx ws1 newId (fieldOptsOf t fieldName) fieldName newValue h4 })
                    rows)
           (getIndexedFields t) (ws, h2) = Some (r, h')"
    unfolding update_rows_def by (auto split: Option.bind_splits prod.splits)
  have p1: "preserved (batchToken tx) h0 h1" using l1 nm p by (rule update_map_loop_preserved)
  have p2: "preserved (batchToken tx) h0 h2" using s p1 by (rule batch_set_preserved)
  show ?thesis using l2 nm p2 by (rule update_index_loop_preserved)
qed

lemma delete_index_rows_preserved:
  "foldM (\<lambda>row (b, h'). do {
            rid \<leftarrow> js_get h' row (idAttribute t);
            x \<leftarrow> js_get h' row fieldName;
            deleteFromIndex tx b rid (fieldOptsOf t fieldName) fieldName x h' })
         rows (ws, h) = Some (ws', h') \<Longrightarrow> \<not> withMutations tx \<Longrightarrow>
   preserved (batchToken tx) h0 h \<Longrightarrow> preserved (batchToken tx) h0 h'"
  by (erule foldM_preserved [rotated 2])
     (auto split: Option.bind_splits dest: deleteFromIndex_preserved)

lemma delete_index_loop_preserved:
  "foldM (\<lambda>fieldName.
            foldM (\<lambda>row (b, h'). do {
                     rid \<leftarrow> js_get h' row (idAttribute t);
                     x \<leftarrow> js_get h' row fieldName;
                     deleteFromIndex tx b rid (fieldOptsOf t fieldName) fieldName x h' })
                  rows)
         fs (ws, h) = Some (ws', h') \<Longrightarrow> \<not> withMutations tx \<Longrightarrow>
   preserved (batchToken tx) h0 h \<Longrightarrow> preserved (batchToken tx) h0 h'"
  by (erule foldM_preserved [rotated 2]) (auto dest: delete_index_rows_preserved)

lemma delete_rows_preserved:
  "delete_rows t tx branch rows h = Some (r, h') \<Longrightarrow> \<not> withMutations tx \<Longrightarrow>
   preserved (batchToken tx) h0 h \<Longrightarrow> preserved (batchToken tx) h0 h'"
  apply (auto simp: delete_rows_def split: Option.bind_splits prod.splits)
  apply (blast dest: delete_index_loop_preserved batch_filter_preserved batch_omit_preserved
                     batch_merge_preserved)
  done

lemma cell_at_prefix:
  "take (length h) h' = h \<Longrightarrow> cell_at h v = Some c \<Longrightarrow> cell_at h' v = Some c"
proof -
  assume t: "take (length h) h' = h" and c: "cell_at h v = Some c"
  from c obtain a where a: "v = VRef a" "a < length h" "h ! a = c"
    by (cases v) (auto simp: cell_at_def split: if_splits)
  have l: "length h \<le> length h'"
    using arg_cong [OF t, of length] by simp
  from t a have "h' ! a = h ! a" by (metis nth_take)
  with a l show ?thesis by (simp add: cell_at_def)
qed

lemma obj_at_prefix:
  "take (length h) h' = h \<Longrightarrow> obj_at h v = Some ps \<Longrightarrow> obj_at h' v = Some ps"
  by (auto simp: obj_at_def split: option.splits cell.splits dest: cell_at_prefix)

lemma arr_at_prefix:
  "take (length h) h' = h \<Longrightarrow> arr_at h v = Some xs \<Longrightarrow> arr_at h' v = Some xs"
  by (auto simp: arr_at_def split: option.splits cell.splits dest: cell_at_prefix)

lemma js_get_prefix:
  "take (length h) h' = h \<Longrightarrow> js_get h v k = Some x \<Longrightarrow> js_get h' v k = Some x"
proof (cases v)
  case (VRef a)
  assume t: "take (length h) h' = h" and g: "js_get h v k = Some x"
  from g VRef obtain ps where ps: "obj_at h v = Some ps"
    by (auto simp: js_get_def split: option.splits)
  from t ps have "obj_at h' v = Some ps" by (rule obj_at_prefix)
  with g ps VRef show ?thesis by (simp add: js_get_def)
qed (auto simp: js_get_def)

lemma those_map_mono:
  "(\<And>x y. x \<in> set xs \<Longrightarrow> f x = Some y \<Longrightarrow> g x = Some y) \<Longrightarrow>
   those (map f xs) = Some ys \<Longrightarrow> those (map g xs) = Some ys"
proof (induction xs arbitrary: ys)
  case Nil
  then show ?case by simp
next
  case (Cons x xs)
  from Cons.prems(2) obtain y ys' where y: "f x = Some y" "those (map f xs) = Some ys'" "ys = y # ys'"
    by (auto split: option.splits)
  have "g x = Some y" using Cons.prems(1) y(1) by simp
  moreover have "those (map g xs) = Some ys'"
    by (rule Cons.IH [OF _ y(2)]) (simp add: Cons.prems(1))
  ultimately show ?case using y(3) by simp
qed

lemma readBranch_prefix:
  assumes t: "take (length h) h' = h" and r: "readBranch tb h branch = Some V"
  shows "readBranch tb h' branch = Some V"
proof -
  note pre = js_get_prefix [OF t] obj_at_prefix [OF t] arr_at_prefix [OF t]
  from r obtain ids mp entries rowValues meta metaProps indexes fieldIndexes indexValues where
    r1: "accessIdList tb h branch = Some ids" and
    r2: "js_get h branch (mapName tb) = Some mp" and
    r3: "obj_at h mp = Some entries" and
    r4: "those (map (\<lambda>(k, r). map_option (Pair k) (obj_at h r)) entries) = Some rowValues" and
    r5: "js_get h branch ''meta'' = Some meta" and
    r6: "obj_at h meta = Some metaProps" and
    r7: "js_get h branch ''__indexes'' = Some indexes" and
    r8: "obj_at h indexes = Some fieldIndexes" and
    r9: "those (map (\<lambda>(fieldName, fi). do {
                     buckets \<leftarrow> obj_at h fi;
                     bucketValues \<leftarrow> those (map (\<lambda>(k, b). map_option (Pair k) (arr_at h b)) buckets);
                     Some (fieldName, bucketValues) })
                  fieldIndexes) = Some indexValues" and
    V: "V = \<lparr>identityList = ids, byIdentity = rowValues,
             metaValue = metaProps, indexesValue = indexValues\<rparr>"
    unfolding readBranch_def by (auto split: Option.bind_splits)
  from r1 obtain arr where arr: "js_get h branch (arrName tb) = Some arr" "arr_at h arr = Some ids"
    by (auto simp: accessIdList_def split: Option.bind_splits)
  have q1: "accessIdList tb h' branch = Some ids"
    by (simp add: accessIdList_def pre(1) [OF arr(1)] pre(3) [OF arr(2)])
  have q4: "those (map (\<lambda>(k, r). map_option (Pair k) (obj_at h' r)) entries) = Some rowValues"
    by (rule those_map_mono [OF _ r4]) (auto dest: pre)
  have b: "\<And>buckets bv. those (map (\<lambda>(k, b). map_option (Pair k) (arr_at h b)) buckets) = Some bv
      \<Longrightarrow> those (map (\<lambda>(k, b). map_option (Pair k) (arr_at h' b)) buckets) = Some bv"
    by (erule those_map_mono [rotated]) (auto dest: pre)
  have q9: "those (map (\<lambda>(fieldName, fi). do {
                     buckets \<leftarrow> obj_at h' fi;
                     bucketValues \<leftarrow> those (map (\<lambda>(k, b). map_option (Pair k) (arr_at h' b)) buckets);
                     Some (fieldName, bucketValues) })
                  fieldIndexes) = Some indexValues"
  proof (rule those_map_mono [OF _ r9])
    fix x y
    assume "(case x of (fieldName, fi) \<Rightarrow> do {
                     buckets \<leftarrow> obj_at h fi;
                     bucketValues \<leftarrow> those (map (\<lambda>(k, b). map_option (Pair k) (arr_at h b)) buckets);
                     Some (fieldName, bucketValues) }) = Some y"
    then obtain fieldName fi buckets bv where x: "x = (fieldName, fi)" and
      o: "obj_at h fi = Some buckets" and
      v: "those (map (\<lambda>(k, b). map_option (Pair k) (arr_at h b)) buckets) = Some bv" and
      y: "y = (fieldName, bv)"
      by (cases x) (auto split: Option.bind_splits)
    show "(case x of (fieldName, fi) \<Rightarrow> do {
                     buckets \<leftarrow> obj_at h' fi;
                     bucketValues \<leftarrow> those (map (\<lambda>(k, b). map_option (Pair k) (arr_at h' b)) buckets);
                     Some (fieldName, bucketValues) }) = Some y"
      by (simp add: x y pre(2) [OF o] b [OF v])
  qed
  show ?thesis
    unfolding readBranch_def
    by (simp add: q1 pre(1) [OF r2] pre(2) [OF r3] q4 pre(1) [OF r5] pre(2) [OF r6]
                  pre(1) [OF r7] pre(2) [OF r8] q9 V)
qed

lemma preserved_snapshotKept:
  assumes p: "preserved tok h h'"
  shows "snapshotKept t tok branch h h'"
proof -
  have a: "\<forall>a < length h. \<not> ownedBy tok (h ! a) \<longrightarrow> a < length h' \<and> h' ! a = h ! a"
    using p by (auto simp: preserved_def)
  have "take (length h) h' = h" if "\<forall>c \<in> set h. \<not> ownedBy tok c"
  proof (rule nth_equalityI)
    show "length (take (length h) h') = length h" using p by (simp add: preserved_def)
    fix i assume "i < length (take (length h) h')"
    then have i: "i < length h" by simp
    with that have "\<not> ownedBy tok (h ! i)" by simp
    with a i show "take (length h) h' ! i = h ! i" by simp
  qed
  with a show ?thesis by (auto simp: snapshotKept_def dest: readBranch_prefix)
qed

text \<open>
  Claim C7. A call of \<open>insert\<close>, \<open>update\<close> or \<open>delete\<close> with \<open>withMutations = false\<close>
  changes no cell of the store but those that carry the tag of its own batch. On a store
  in which nothing carries that tag (the branch was not made under the same batch token),
  the whole old store is kept, and the branch passed in reads afterwards exactly as before:
  identity list, rows, metadata and indexes.
\<close>

theorem copy_mode_keeps_snapshot:
  assumes "\<not> withMutations tx"
  shows "(insert_row t tx branch entry h = Some (created, h1) \<longrightarrow>
            snapshotKept t (batchToken tx) branch h h1)
       \<and> (update_rows t tx branch rows mergeObj h = Some (updated, h2) \<longrightarrow>
            snapshotKept t (batchToken tx) branch h h2)
       \<and> (delete_rows t tx branch rows h = Some (deleted, h3) \<longrightarrow>
            snapshotKept t (batchToken tx) branch h h3)"
  using assms
  by (auto intro!: preserved_snapshotKept
           dest: insert_row_preserved [OF _ _ preserved_refl]
                 update_rows_preserved [OF _ _ preserved_refl]
                 delete_rows_preserved [OF _ _ preserved_refl])

theorem copy_mode_keeps_snapshot_witness:
  "insert_row exampleTable txOther (VRef 6) (VRef 20) twoRowsStore \<noteq> None
   \<and> readBranch exampleTable twoRowsStore (VRef 6) \<noteq> None
   \<and> readBranch exampleTable
        (snd (the (insert_row exampleTable txOther (VRef 6) (VRef 20) twoRowsStore))) (VRef 6)
       = readBranch exampleTable twoRowsStore (VRef 6)
   \<and> take (length twoRowsStore)
        (snd (the (insert_row exampleTable txOther (VRef 6) (VRef 20) twoRowsStore)))
       = twoRowsStore"
proof -
  let ?ins = "insert_row exampleTable txOther (VRef 6) (VRef 20) twoRowsStore"
  have ne: "?ins \<noteq> None" by code_simp
  then obtain r h1 where ins: "?ins = Some (r, h1)" by (cases ?ins) auto
  have rd: "readBranch exampleTable twoRowsStore (VRef 6) \<noteq> None" by code_simp
  then obtain V where V: "readBranch exampleTable twoRowsStore (VRef 6) = Some V" by auto
  have nm: "\<not> withMutations txOther" by code_simp
  have un: "\<forall>c \<in> set twoRowsStore. \<not> ownedBy (batchToken txOther) c" by code_simp
  have "snapshotKept exampleTable (batchToken txOther) (VRef 6) twoRowsStore h1"
    using copy_mode_keeps_snapshot [OF nm, of exampleTable "VRef 6" "VRef 20" twoRowsStore r h1] ins
    by simp
  with un V have "take (length twoRowsStore) h1 = twoRowsStore"
    and "readBranch exampleTable h1 (VRef 6) = Some V"
    by (auto simp: snapshotKept_def)
  with ne rd ins V show ?thesis by simp
qed

end
